theory Spec2Isabelle
  imports Complex_Main "HOL-Library.Word"
begin

section \<open>Constants of the service\<close>

text \<open>The module-level constants of \<^verbatim>\<open>argus-cpu-display-service.py\<close> that the
  modelled functions read.\<close>

definition ARGUS_SIGNATURE :: "32 word" where
  "ARGUS_SIGNATURE = 0x4D677241"

definition SENSOR_TYPE_CPU_TEMPERATURE :: nat where
  "SENSOR_TYPE_CPU_TEMPERATURE = 6"

definition SENSOR_TYPE_CPU_TEMPERATURE_ADDITIONAL :: nat where
  "SENSOR_TYPE_CPU_TEMPERATURE_ADDITIONAL = 7"

definition MAX_SENSOR_COUNT :: nat where
  "MAX_SENSOR_COUNT = 512"

definition USB_PACKET_SIZE :: nat where
  "USB_PACKET_SIZE = 65"

definition USB_PACKET_REPORT_ID :: int where
  "USB_PACKET_REPORT_ID = 0x00"

definition USB_PACKET_COMMAND :: int where
  "USB_PACKET_COMMAND = 0x10"

definition TEMP_MIN :: int where
  "TEMP_MIN = 0"

definition TEMP_MAX :: int where
  "TEMP_MAX = 99"

definition MANDATORY_UPDATE_INTERVAL :: rat where
  "MANDATORY_UPDATE_INTERVAL = 15"

definition ARGUS_CONNECTION_MAX_RETRIES :: nat where
  "ARGUS_CONNECTION_MAX_RETRIES = 6"

definition ARGUS_CONNECTION_RETRY_DELAY :: nat where
  "ARGUS_CONNECTION_RETRY_DELAY = 10"

section \<open>Python values\<close>

text \<open>The exceptions that the modelled code can raise.\<close>

datatype py_error =
    OSError | IOError | ValueError | OverflowError | TypeError | IndexError
  | AttributeError | OtherException

text \<open>A Python float (a C double).  Every finite double is a rational number, so the
  finite values are embedded in \<^typ>\<open>rat\<close>; the three non-finite values are kept apart
  because \<^verbatim>\<open>round\<close> raises on them.  Comparison and the rounding to an integer are exact
  on doubles and therefore exact here; the one float addition of the program
  (\<^verbatim>\<open>time.time() + MANDATORY_UPDATE_INTERVAL\<close>) is taken without its rounding error.\<close>

datatype pyfloat = Fl rat | Fl_inf | Fl_neg_inf | Fl_nan

text \<open>C's \<^verbatim>\<open>round\<close>: the nearest integer, halfway cases away from zero.\<close>

definition c_round :: "rat \<Rightarrow> int" where
  "c_round x = (if 0 \<le> x then \<lfloor>x + 1 / 2\<rfloor> else \<lceil>x - 1 / 2\<rceil>)"

text \<open>Python's one-argument \<^verbatim>\<open>round\<close> on a finite float, as CPython's
  \<^verbatim>\<open>float.__round__\<close> computes it:
  \<^verbatim>\<open>rounded = round(x); if (fabs(x - rounded) == 0.5) rounded = 2.0 * round(x / 2.0);\<close>\<close>

definition float_round :: "rat \<Rightarrow> int" where
  "float_round x =
     (let rounded = c_round x
      in if \<bar>x - of_int rounded\<bar> = 1 / 2 then 2 * c_round (x / 2) else rounded)"

text \<open>\<^verbatim>\<open>round(raw_temp)\<close>: \<^verbatim>\<open>ValueError\<close> on a NaN, \<^verbatim>\<open>OverflowError\<close> on an
  infinity.\<close>

fun py_round :: "pyfloat \<Rightarrow> py_error + int" where
  "py_round (Fl x) = Inr (float_round x)"
| "py_round Fl_nan = Inl ValueError"
| "py_round Fl_inf = Inl OverflowError"
| "py_round Fl_neg_inf = Inl OverflowError"

text \<open>\<^verbatim>\<open>bytearray(n)\<close> and the item assignment \<^verbatim>\<open>b[i] = v\<close>, which raises
  \<^verbatim>\<open>IndexError\<close> outside the array and \<^verbatim>\<open>ValueError\<close> unless \<^verbatim>\<open>0 <= v < 256\<close>.\<close>

definition bytearray :: "nat \<Rightarrow> int list" where
  "bytearray n = replicate n 0"

definition bytearray_setitem :: "int list \<Rightarrow> nat \<Rightarrow> int \<Rightarrow> py_error + int list" where
  "bytearray_setitem b i v =
     (if \<not> i < length b then Inl IndexError
      else if \<not> (0 \<le> v \<and> v < 256) then Inl ValueError
      else Inr (b[i := v]))"

section \<open>The shared sensor region\<close>

text \<open>\<^verbatim>\<open>ArgusMonitorSensorData\<close> and \<^verbatim>\<open>ArgusMonitorData\<close>, the ctypes structures laid over
  the mapped region.  A \<^verbatim>\<open>c_uint32\<close> is a 32-bit word, a \<^verbatim>\<open>c_double\<close> a Python float.
  A fixed-size ctypes array is a function of the index; the bound of the array is checked
  where the code indexes it with a value that is not a constant (an index outside the
  array raises \<^verbatim>\<open>IndexError\<close>).\<close>

record ArgusMonitorSensorData =
  SensorType :: "32 word"
  Label :: string
  UnitString :: string
  Value :: pyfloat
  DataIndex :: "32 word"
  SensorIndex :: "32 word"

record ArgusMonitorData =
  Signature :: "32 word"
  ArgusMajor :: "8 word"
  ArgusMinorA :: "8 word"
  ArgusMinorB :: "8 word"
  ArgusExtra :: "8 word"
  ArgusBuild :: "32 word"
  Version :: "32 word"
  CycleCounter :: "32 word"
  OffsetForSensorType :: "nat \<Rightarrow> 32 word"
  SensorCount :: "nat \<Rightarrow> 32 word"
  TotalSensorCount :: "32 word"
  SensorData :: "nat \<Rightarrow> ArgusMonitorSensorData"

text \<open>The cached sensor location of \<^verbatim>\<open>ArgusMonitorAPI\<close>; both fields are \<^verbatim>\<open>None\<close>
  until \<^verbatim>\<open>_cache_sensor_info\<close> has seen a valid signature.  The OS handle and the mapped
  view are opaque and not part of the model: the contents of the shared region, as they
  are when the function reads them, are an argument of every function that reads the
  region.\<close>

record ArgusMonitorAPI =
  cpu_temp_offset :: "nat option"
  cpu_temp_count :: "nat option"

definition is_active :: "ArgusMonitorData \<Rightarrow> bool" where
  "is_active data = (Signature data = ARGUS_SIGNATURE)"

text \<open>\<^verbatim>\<open>ArgusMonitorAPI._cache_sensor_info\<close>.\<close>

definition cache_sensor_info :: "ArgusMonitorAPI \<Rightarrow> ArgusMonitorData \<Rightarrow> ArgusMonitorAPI" where
  "cache_sensor_info api data =
     (if Signature data \<noteq> ARGUS_SIGNATURE then api
      else
        (let api1 = api\<lparr>cpu_temp_offset :=
                         Some (unat (OffsetForSensorType data SENSOR_TYPE_CPU_TEMPERATURE)),
                       cpu_temp_count :=
                         Some (unat (SensorCount data SENSOR_TYPE_CPU_TEMPERATURE))\<rparr>
         in if cpu_temp_count api1 = Some 0
            then api1\<lparr>cpu_temp_offset :=
                        Some (unat (OffsetForSensorType data
                                      SENSOR_TYPE_CPU_TEMPERATURE_ADDITIONAL)),
                      cpu_temp_count :=
                        Some (unat (SensorCount data
                                      SENSOR_TYPE_CPU_TEMPERATURE_ADDITIONAL))\<rparr>
            else api1))"

text \<open>\<^verbatim>\<open>ArgusMonitorAPI.__init__\<close>: \<^verbatim>\<open>_open_shared_memory\<close> either raises
  \<^verbatim>\<open>OSError\<close> or gives the view of the region, whose contents are then cached.\<close>

definition ArgusMonitorAPI_init :: "py_error + ArgusMonitorData \<Rightarrow> py_error + ArgusMonitorAPI" where
  "ArgusMonitorAPI_init opened =
     (case opened of
        Inl e \<Rightarrow> Inl e
      | Inr data \<Rightarrow>
          Inr (cache_sensor_info \<lparr>cpu_temp_offset = None, cpu_temp_count = None\<rparr> data))"

text \<open>\<^verbatim>\<open>ArgusMonitorAPI.get_cpu_temp_raw\<close>.  \<^verbatim>\<open>None == 0\<close> is false in Python, and
  indexing an array with \<^verbatim>\<open>None\<close> raises \<^verbatim>\<open>TypeError\<close>.\<close>

definition get_cpu_temp_raw ::
  "ArgusMonitorAPI \<Rightarrow> ArgusMonitorData \<Rightarrow> py_error + pyfloat option" where
  "get_cpu_temp_raw api data =
     (if cpu_temp_count api = Some 0 then Inr None
      else if Signature data \<noteq> ARGUS_SIGNATURE then Inr None
      else
        (case cpu_temp_offset api of
           None \<Rightarrow> Inl TypeError
         | Some offset \<Rightarrow>
             if offset < MAX_SENSOR_COUNT then Inr (Some (Value (SensorData data offset)))
             else Inl IndexError))"

text \<open>One dictionary of the list that \<^verbatim>\<open>get_all_cpu_temps\<close> returns.\<close>

record cpu_temp_entry =
  entry_label :: string
  entry_value :: pyfloat
  entry_unit :: string
  entry_type :: string

text \<open>The loop \<^verbatim>\<open>for i in range(count)\<close> of \<^verbatim>\<open>get_all_cpu_temps\<close>, over the indices
  that remain; \<^verbatim>\<open>sensors[offset + i]\<close> raises outside the array.\<close>

fun collect_cpu_temps ::
  "(nat \<Rightarrow> ArgusMonitorSensorData) \<Rightarrow> nat \<Rightarrow> nat list \<Rightarrow> cpu_temp_entry list
    \<Rightarrow> py_error + cpu_temp_entry list" where
  "collect_cpu_temps sensors offset [] temps = Inr temps"
| "collect_cpu_temps sensors offset (i # rest) temps =
     (if offset + i < MAX_SENSOR_COUNT
      then
        (let sensor = sensors (offset + i)
         in collect_cpu_temps sensors offset rest
              (temps @ [\<lparr>entry_label = Label sensor, entry_value = Value sensor,
                          entry_unit = UnitString sensor, entry_type = ''core''\<rparr>]))
      else Inl IndexError)"

text \<open>\<^verbatim>\<open>ArgusMonitorAPI.get_all_cpu_temps\<close>.\<close>

definition get_all_cpu_temps :: "ArgusMonitorData \<Rightarrow> py_error + cpu_temp_entry list" where
  "get_all_cpu_temps data =
     (if Signature data \<noteq> ARGUS_SIGNATURE then Inr []
      else
        (let offset = unat (OffsetForSensorType data SENSOR_TYPE_CPU_TEMPERATURE);
             count = unat (SensorCount data SENSOR_TYPE_CPU_TEMPERATURE)
         in collect_cpu_temps (SensorData data) offset [0..<count] []))"

section \<open>The display service\<close>

text \<open>\<^verbatim>\<open>hid.device()\<close>: the object exists once constructed, opened or not.\<close>

datatype hid_device = HidDevice (opened: bool)

text \<open>The fields of \<^verbatim>\<open>CPUDisplayService\<close> (the stop event, the thread and the debug
  flag, which only selects printing, are left out).\<close>

record CPUDisplayService =
  argus :: "ArgusMonitorAPI option"
  device :: "hid_device option"
  packet :: "int list"
  last_temp :: int
  next_mandatory_write_time :: rat

text \<open>\<^verbatim>\<open>CPUDisplayService.__init__\<close>.  The two item assignments are in range for a
  65-byte array.\<close>

definition init_service :: CPUDisplayService where
  "init_service =
     \<lparr> argus = None, device = None,
       packet = ((bytearray USB_PACKET_SIZE)[0 := USB_PACKET_REPORT_ID])[1 := USB_PACKET_COMMAND],
       last_temp = - 1, next_mandatory_write_time = 0 \<rparr>"

text \<open>What \<^verbatim>\<open>device.write\<close> does when called: it returns, raises \<^verbatim>\<open>IOError\<close> or
  raises another exception.  The transport is opaque, so the outcome is an input of the
  model, and the theorems hold for every outcome.\<close>

datatype write_outcome = WriteOk | WriteIOError | WriteOtherError

text \<open>What one call of \<^verbatim>\<open>write_temp\<close> did to the device: nothing, or one call of
  \<^verbatim>\<open>device.write\<close> with the given packet and outcome.\<close>

datatype device_call = NotCalled | Called "int list" write_outcome

text \<open>Lines 327-330: the clamp of the rounded temperature.\<close>

definition clamp_temp :: "int \<Rightarrow> int" where
  "clamp_temp temp_int =
     (if temp_int > TEMP_MAX then TEMP_MAX
      else if temp_int < TEMP_MIN then TEMP_MIN
      else temp_int)"

text \<open>\<^verbatim>\<open>CPUDisplayService.write_temp(raw_temp, force)\<close>.  \<open>wo\<close> is the outcome of
  \<^verbatim>\<open>device.write\<close> should it be called, \<open>now\<close> the reading of \<^verbatim>\<open>time.time()\<close>
  after it.  The result is the returned boolean, the service afterwards and what was done
  to the device.  Both \<^verbatim>\<open>except\<close> clauses return \<^verbatim>\<open>False\<close>, keeping the
  assignments made before the exception.\<close>

definition write_temp ::
  "CPUDisplayService \<Rightarrow> pyfloat \<Rightarrow> bool \<Rightarrow> write_outcome \<Rightarrow> rat
    \<Rightarrow> bool \<times> CPUDisplayService \<times> device_call" where
  "write_temp s raw_temp force wo now =
     (case device s of
        None \<Rightarrow> (False, s, NotCalled)
      | Some dev \<Rightarrow>
          (case py_round raw_temp of
             Inl e \<Rightarrow> (False, s, NotCalled)
           | Inr r \<Rightarrow>
               (let temp_int = clamp_temp r
                in if \<not> force \<and> temp_int = last_temp s then (True, s, NotCalled)
                   else
                     (let s1 = s\<lparr>last_temp := temp_int\<rparr>
                      in case bytearray_setitem (packet s1) 2 temp_int of
                           Inl e \<Rightarrow> (False, s1, NotCalled)
                         | Inr pk \<Rightarrow>
                             (let s2 = s1\<lparr>packet := pk\<rparr>
                              in case wo of
                                   WriteOk \<Rightarrow>
                                     (True,
                                      s2\<lparr>next_mandatory_write_time :=
                                            now + MANDATORY_UPDATE_INTERVAL\<rparr>,
                                      Called pk WriteOk)
                                 | WriteIOError \<Rightarrow> (False, s2, Called pk WriteIOError)
                                 | WriteOtherError \<Rightarrow>
                                     (False, s2, Called pk WriteOtherError))))))"

text \<open>One attempt to reach Argus Monitor, as the environment decides it: the mapping
  cannot be opened, or it is opened and holds \<open>cached\<close> when \<^verbatim>\<open>_cache_sensor_info\<close>
  reads it and \<open>checked\<close> when \<^verbatim>\<open>is_active\<close> reads it afterwards.\<close>

datatype argus_attempt = OpenFails | Opened ArgusMonitorData ArgusMonitorData

text \<open>\<^verbatim>\<open>CPUDisplayService.connect_argus\<close>.  When the mapping cannot be opened the
  constructor raises \<^verbatim>\<open>OSError\<close>: the assignment to \<^verbatim>\<open>self.argus\<close> does not happen and
  the \<^verbatim>\<open>except\<close> clause returns \<^verbatim>\<open>False\<close>.\<close>

fun connect_argus :: "CPUDisplayService \<Rightarrow> argus_attempt \<Rightarrow> bool \<times> CPUDisplayService" where
  "connect_argus s OpenFails = (False, s)"
| "connect_argus s (Opened cached checked) =
     (case ArgusMonitorAPI_init (Inr cached) of
        Inl e \<Rightarrow> (False, s)
      | Inr api \<Rightarrow>
          (let s1 = s\<lparr>argus := Some api\<rparr>
           in if is_active checked then (True, s1) else (False, s1)))"

text \<open>What opening the display does: \<^verbatim>\<open>hid.device()\<close> raises, \<^verbatim>\<open>open\<close> raises, or
  both succeed.\<close>

datatype hid_outcome = HidCtorFails | HidOpenFails | HidOpenOk

text \<open>\<^verbatim>\<open>CPUDisplayService.connect_display\<close>.\<close>

fun connect_display :: "CPUDisplayService \<Rightarrow> hid_outcome \<Rightarrow> bool \<times> CPUDisplayService" where
  "connect_display s HidCtorFails = (False, s)"
| "connect_display s HidOpenFails = (False, s\<lparr>device := Some (HidDevice False)\<rparr>)"
| "connect_display s HidOpenOk =
     (True, s\<lparr>device := Some (HidDevice True), next_mandatory_write_time := 0\<rparr>)"

text \<open>What one iteration of \<^verbatim>\<open>update_loop\<close> meets: the contents of the region, the
  reading of \<^verbatim>\<open>time.time()\<close> in the loop, the outcome of \<^verbatim>\<open>device.write\<close> and the
  reading of \<^verbatim>\<open>time.time()\<close> after the write.\<close>

record tick_env =
  region :: ArgusMonitorData
  clock :: rat
  write_result :: write_outcome
  clock_after_write :: rat

text \<open>The body of the loop of \<^verbatim>\<open>update_loop\<close>, up to the wait.  An exception leaves
  the loop (it ends the thread).\<close>

definition update_tick ::
  "CPUDisplayService \<Rightarrow> tick_env \<Rightarrow> py_error + CPUDisplayService \<times> device_call" where
  "update_tick s env =
     (case argus s of
        None \<Rightarrow> Inl AttributeError
      | Some api \<Rightarrow>
          (case get_cpu_temp_raw api (region env) of
             Inl e \<Rightarrow> Inl e
           | Inr None \<Rightarrow> Inr (s, NotCalled)
           | Inr (Some raw_temp) \<Rightarrow>
               (let force_write = (clock env \<ge> next_mandatory_write_time s);
                    (ok, s', call) =
                      write_temp s raw_temp force_write (write_result env)
                        (clock_after_write env)
                in Inr (s', call))))"

text \<open>\<^verbatim>\<open>update_loop\<close>: one iteration for each environment of the list, the stop event
  being set after the last one.  The result is the service afterwards and what each
  iteration did to the device.\<close>

fun update_loop ::
  "CPUDisplayService \<Rightarrow> tick_env list \<Rightarrow> device_call list
    \<Rightarrow> py_error + CPUDisplayService \<times> device_call list" where
  "update_loop s [] calls = Inr (s, calls)"
| "update_loop s (env # envs) calls =
     (case update_tick s env of
        Inl e \<Rightarrow> Inl e
      | Inr (s', call) \<Rightarrow> update_loop s' envs (calls @ [call]))"

text \<open>The observable steps of \<^verbatim>\<open>start\<close>.\<close>

datatype start_event = ConnectArgus | Sleep nat | ConnectDisplay | StartThread

text \<open>How the \<^verbatim>\<open>for\<close> loop of \<^verbatim>\<open>start\<close> ends: by \<^verbatim>\<open>break\<close>, by running out of
  attempts, or by \<^verbatim>\<open>return False\<close>.\<close>

datatype loop_exit = Broke | Exhausted | Returned bool

text \<open>The loop \<^verbatim>\<open>for attempt in range(ARGUS_CONNECTION_MAX_RETRIES)\<close> over the attempts
  that remain; \<open>env attempt\<close> is what that attempt meets.\<close>

fun retry_loop ::
  "nat list \<Rightarrow> (nat \<Rightarrow> argus_attempt) \<Rightarrow> CPUDisplayService \<Rightarrow> start_event list
    \<Rightarrow> loop_exit \<times> CPUDisplayService \<times> start_event list" where
  "retry_loop [] env s tr = (Exhausted, s, tr)"
| "retry_loop (attempt # rest) env s tr =
     (case connect_argus s (env attempt) of
        (True, s1) \<Rightarrow> (Broke, s1, tr @ [ConnectArgus])
      | (False, s1) \<Rightarrow>
          if attempt < ARGUS_CONNECTION_MAX_RETRIES - 1
          then retry_loop rest env s1 (tr @ [ConnectArgus, Sleep ARGUS_CONNECTION_RETRY_DELAY])
          else (Returned False, s1, tr @ [ConnectArgus]))"

text \<open>\<^verbatim>\<open>CPUDisplayService.start\<close>: the returned value (or the exception that escapes),
  the service afterwards and the steps taken.  \<open>listed\<close> is the region as
  \<^verbatim>\<open>get_all_cpu_temps\<close> reads it.\<close>

definition start ::
  "CPUDisplayService \<Rightarrow> (nat \<Rightarrow> argus_attempt) \<Rightarrow> hid_outcome \<Rightarrow> ArgusMonitorData
    \<Rightarrow> (py_error + bool) \<times> CPUDisplayService \<times> start_event list" where
  "start s env hid listed =
     (case retry_loop [0..<ARGUS_CONNECTION_MAX_RETRIES] env s [] of
        (Returned b, s1, tr) \<Rightarrow> (Inr b, s1, tr)
      | (_, s1, tr) \<Rightarrow>
          (case connect_display s1 hid of
             (False, s2) \<Rightarrow> (Inr False, s2, tr @ [ConnectDisplay])
           | (True, s2) \<Rightarrow>
               (case argus s2 of
                  None \<Rightarrow> (Inl AttributeError, s2, tr @ [ConnectDisplay])
                | Some api \<Rightarrow>
                    (case get_all_cpu_temps listed of
                       Inl e \<Rightarrow> (Inl e, s2, tr @ [ConnectDisplay])
                     | Inr temps \<Rightarrow> (Inr True, s2, tr @ [ConnectDisplay, StartThread])))))"

text \<open>A call of one of the methods of the service that touch the display, with what the
  environment answers; the life of a service is \<^verbatim>\<open>__init__\<close> followed by such calls.\<close>

datatype service_op =
    OpConnectArgus argus_attempt
  | OpConnectDisplay hid_outcome
  | OpWriteTemp pyfloat bool write_outcome rat
  | OpTick tick_env

fun apply_op :: "CPUDisplayService \<Rightarrow> service_op \<Rightarrow> CPUDisplayService \<times> device_call" where
  "apply_op s (OpConnectArgus a) = (snd (connect_argus s a), NotCalled)"
| "apply_op s (OpConnectDisplay h) = (snd (connect_display s h), NotCalled)"
| "apply_op s (OpWriteTemp raw_temp force wo now) = snd (write_temp s raw_temp force wo now)"
| "apply_op s (OpTick env) =
     (case update_tick s env of Inl e \<Rightarrow> (s, NotCalled) | Inr r \<Rightarrow> r)"

text \<open>What a sequence of calls does to the device, call by call.\<close>

fun run_service :: "CPUDisplayService \<Rightarrow> service_op list \<Rightarrow> device_call list" where
  "run_service s [] = []"
| "run_service s (op # ops) = (case apply_op s op of (s', call) \<Rightarrow> call # run_service s' ops)"

text \<open>The shape of an output report: 65 bytes, report identifier, command code, a
  temperature byte and zeros.\<close>

definition report_shape :: "int list \<Rightarrow> bool" where
  "report_shape pk =
     (length pk = 65 \<and> pk ! 0 = 0x00 \<and> pk ! 1 = 0x10 \<and> 0 \<le> pk ! 2 \<and> pk ! 2 \<le> 99
      \<and> drop 3 pk = replicate 62 0)"

text \<open>The service after a sequence of calls.\<close>

fun service_after :: "CPUDisplayService \<Rightarrow> service_op list \<Rightarrow> CPUDisplayService" where
  "service_after s [] = s"
| "service_after s (op # ops) = service_after (fst (apply_op s op)) ops"

section \<open>Sample inputs\<close>

text \<open>Concrete regions and services on which the theorems below are instantiated.\<close>

definition cpu_sensor :: "rat \<Rightarrow> ArgusMonitorSensorData" where
  "cpu_sensor t =
     \<lparr> SensorType = 6, Label = ''CPU'', UnitString = ''C'', Value = Fl t, DataIndex = 0,
       SensorIndex = 0 \<rparr>"

text \<open>A region with the given signature whose categories are all empty except the two
  CPU-temperature ones: \<open>n6\<close> records at position 3 in the primary category, \<open>n7\<close> records
  at position 5 in the additional one, every record of the array reading \<open>t\<close>.\<close>

definition sample_region :: "32 word \<Rightarrow> 32 word \<Rightarrow> 32 word \<Rightarrow> rat \<Rightarrow> ArgusMonitorData" where
  "sample_region sig n6 n7 t =
     \<lparr> Signature = sig, ArgusMajor = 7, ArgusMinorA = 0, ArgusMinorB = 0, ArgusExtra = 0,
       ArgusBuild = 0, Version = 1, CycleCounter = 0,
       OffsetForSensorType = (\<lambda>k. if k = 6 then 3 else if k = 7 then 5 else 0),
       SensorCount = (\<lambda>k. if k = 6 then n6 else if k = 7 then n7 else 0),
       TotalSensorCount = n6 + n7,
       SensorData = (\<lambda>i. cpu_sensor t) \<rparr>"

text \<open>The service after \<^verbatim>\<open>__init__\<close> and a successful \<^verbatim>\<open>connect_display\<close>.\<close>

definition connected_service :: CPUDisplayService where
  "connected_service = snd (connect_display init_service HidOpenOk)"

text \<open>The service after \<^verbatim>\<open>__init__\<close>, a successful \<^verbatim>\<open>connect_argus\<close> on a region with
  one primary CPU-temperature record and a successful \<^verbatim>\<open>connect_display\<close>.\<close>

definition running_service :: CPUDisplayService where
  "running_service =
     snd (connect_display
            (snd (connect_argus init_service
                    (Opened (sample_region ARGUS_SIGNATURE 1 0 0)
                       (sample_region ARGUS_SIGNATURE 1 0 0))))
            HidOpenOk)"

text \<open>An iteration of the polling loop that reads \<open>t\<close> at time \<open>now\<close> from a region with
  one primary CPU-temperature record, whose write has outcome \<open>wo\<close> and returns one
  millisecond later.\<close>

definition sample_tick :: "rat \<Rightarrow> rat \<Rightarrow> write_outcome \<Rightarrow> tick_env" where
  "sample_tick t now wo =
     \<lparr> region = sample_region ARGUS_SIGNATURE 1 0 t, clock = now, write_result = wo,
       clock_after_write = now + 1 / 1000 \<rparr>"


text \<open>The running service after one forced, successful write of \<open>t\<close> that returned at
  time \<open>now\<close>.\<close>

definition service_after_write :: "rat \<Rightarrow> rat \<Rightarrow> CPUDisplayService" where
  "service_after_write t now = fst (snd (write_temp running_service (Fl t) True WriteOk now))"

section \<open>Rounding and clamping\<close>

lemma c_round_half_int:
  "c_round (of_int n + 1 / 2) = (if 0 \<le> n then n + 1 else n)"
proof (cases "0 \<le> n")
  case True
  then have "(0::rat) \<le> of_int n + 1 / 2" by simp
  moreover have "\<lfloor>(of_int n :: rat) + 1 / 2 + 1 / 2\<rfloor> = n + 1"
    by (simp add: floor_unique)
  ultimately show ?thesis using True by (simp add: c_round_def)
next
  case False
  then have "n \<le> - 1" by simp
  then have "(of_int n :: rat) \<le> - 1" by (metis of_int_le_iff of_int_minus of_int_1)
  then have "\<not> (0::rat) \<le> of_int n + 1 / 2" by simp
  moreover have "\<lceil>(of_int n :: rat) + 1 / 2 - 1 / 2\<rceil> = n" by simp
  ultimately show ?thesis using False by (simp add: c_round_def)
qed

lemma c_round_unique:
  assumes "\<bar>x - of_int m\<bar> < 1 / 2" shows "c_round x = m"
proof -
  from assms have a: "of_int m - 1 / 2 < x" and b: "x < of_int m + 1 / 2"
    by linarith+
  have "\<lfloor>x + 1 / 2\<rfloor> = m" using a b by (intro floor_unique) auto
  moreover have "\<lceil>x - 1 / 2\<rceil> = m" using a b by (intro ceiling_unique) auto
  ultimately show ?thesis by (simp add: c_round_def)
qed


lemma float_round_half_int:
  "float_round (of_int n + 1 / 2) = (if even n then n else n + 1)"
proof -
  let ?x = "(of_int n :: rat) + 1 / 2"
  have h: "\<bar>?x - of_int (c_round ?x)\<bar> = 1 / 2"
    by (simp add: c_round_half_int)
  have r: "float_round ?x = 2 * c_round (?x / 2)"
    using h by (simp add: float_round_def Let_def)
  show ?thesis
  proof (cases "even n")
    case True
    then obtain k where k: "n = 2 * k" by auto
    have "?x / 2 - of_int k = 1 / 4" by (simp add: k field_simps)
    then have "\<bar>?x / 2 - of_int k\<bar> < 1 / 2" by linarith
    then have "c_round (?x / 2) = k"
      by (rule c_round_unique)
    with r True k show ?thesis by simp
  next
    case False
    then obtain k where k: "n = 2 * k + 1" by (auto elim: oddE)
    have "?x / 2 - of_int (k + 1) = - 1 / 4" by (simp add: k field_simps)
    then have "\<bar>?x / 2 - of_int (k + 1)\<bar> < 1 / 2" by linarith
    then have "c_round (?x / 2) = k + 1"
      by (rule c_round_unique)
    with r False k show ?thesis by simp
  qed
qed


lemma clamp_temp_range: "0 \<le> clamp_temp r \<and> clamp_temp r \<le> 99"
  by (simp add: clamp_temp_def TEMP_MIN_def TEMP_MAX_def)

lemma clamp_temp_max_min: "clamp_temp r = max 0 (min 99 r)"
  by (simp add: clamp_temp_def TEMP_MIN_def TEMP_MAX_def)

lemma write_temp_finite:
  assumes "device s = Some dev" and "2 < length (packet s)"
  shows "write_temp s (Fl q) force wo now =
     (let v = clamp_temp (float_round q); pk = (packet s)[2 := v]
      in if \<not> force \<and> v = last_temp s then (True, s, NotCalled)
         else (wo = WriteOk,
               (if wo = WriteOk
                then s\<lparr>last_temp := v, packet := pk,
                       next_mandatory_write_time := now + MANDATORY_UPDATE_INTERVAL\<rparr>
                else s\<lparr>last_temp := v, packet := pk\<rparr>),
               Called pk wo))"
proof -
  have "0 \<le> clamp_temp (float_round q)" "clamp_temp (float_round q) < 256"
    using clamp_temp_range [of "float_round q"] by auto
  then show ?thesis using assms
    by (cases wo) (simp_all add: write_temp_def Let_def bytearray_setitem_def)
qed

text \<open>On a NaN or an infinity \<^verbatim>\<open>round\<close> raises inside the \<^verbatim>\<open>try\<close>: nothing is
  computed, nothing is written and the service is unchanged.\<close>

lemma write_temp_not_finite:
  assumes "raw_temp = Fl_nan \<or> raw_temp = Fl_inf \<or> raw_temp = Fl_neg_inf"
  shows "write_temp s raw_temp force wo now = (False, s, NotCalled)"
  using assms by (auto simp: write_temp_def split: option.splits)

section \<open>The written value\<close>

lemma connected_service_simps:
  "device connected_service = Some (HidDevice True)"
  "length (packet connected_service) = 65"
  "last_temp connected_service = - 1"
  "next_mandatory_write_time connected_service = 0"
  "argus connected_service = None"
  "packet connected_service = 0 # 16 # replicate 63 0"
  by (simp_all add: connected_service_def init_service_def bytearray_def USB_PACKET_SIZE_def
      USB_PACKET_REPORT_ID_def USB_PACKET_COMMAND_def eval_nat_numeral)



text \<open>Claim C9.  A raw value exactly halfway between the integers \<open>n\<close> and \<open>n + 1\<close> is
  rounded by \<^verbatim>\<open>write_temp\<close> to the even one of the two, for every \<open>n\<close>; the byte written is
  the clamp of that integer.\<close>

theorem write_temp_rounds_half_to_even:
  assumes "device s = Some dev" and "length (packet s) = USB_PACKET_SIZE"
  shows "\<exists>s' pk. write_temp s (Fl (of_int n + 1 / 2)) True wo now = (wo = WriteOk, s', Called pk wo)
          \<and> pk ! 2 = clamp_temp (if even n then n else n + 1)
          \<and> last_temp s' = clamp_temp (if even n then n else n + 1)"
proof -
  have len: "2 < length (packet s)" using assms(2) by (simp add: USB_PACKET_SIZE_def)
  show ?thesis
    using len by (simp add: write_temp_finite [OF assms(1) len] Let_def float_round_half_int)
qed

text \<open>The theorem at 42.5 and 43.5: bytes 42 and 44.\<close>

theorem write_temp_rounds_half_to_even_witness:
  "device connected_service = Some (HidDevice True)
   \<and> length (packet connected_service) = USB_PACKET_SIZE
   \<and> (\<exists>s' pk. write_temp connected_service (Fl (85 / 2)) True WriteOk 0 = (True, s', Called pk WriteOk)
         \<and> pk ! 2 = 42)
   \<and> (\<exists>s' pk. write_temp connected_service (Fl (87 / 2)) True WriteOk 0 = (True, s', Called pk WriteOk)
         \<and> pk ! 2 = 44)"
proof -
  have d: "device connected_service = Some (HidDevice True)"
    and l: "length (packet connected_service) = USB_PACKET_SIZE"
    by (simp_all add: connected_service_simps USB_PACKET_SIZE_def)
  have e: "(of_int 42 :: rat) + 1 / 2 = 85 / 2" "(of_int 43 :: rat) + 1 / 2 = 87 / 2" by simp_all
  have c: "clamp_temp 42 = 42" "clamp_temp 44 = 44" by (simp_all add: clamp_temp_max_min)
  show ?thesis
    using write_temp_rounds_half_to_even [OF d l, of 42 WriteOk 0]
      write_temp_rounds_half_to_even [OF d l, of 43 WriteOk 0] d l
    unfolding e by (auto simp: c)
qed

section \<open>The polling loop and the debounce\<close>

lemma sample_region_simps:
  "Signature (sample_region sig n6 n7 t) = sig"
  "OffsetForSensorType (sample_region sig n6 n7 t) 6 = 3"
  "OffsetForSensorType (sample_region sig n6 n7 t) 7 = 5"
  "SensorCount (sample_region sig n6 n7 t) 6 = n6"
  "SensorCount (sample_region sig n6 n7 t) 7 = n7"
  "Value (SensorData (sample_region sig n6 n7 t) i) = Fl t"
  by (simp_all add: sample_region_def cpu_sensor_def)

lemma running_service_argus:
  "argus running_service = Some \<lparr>cpu_temp_offset = Some 3, cpu_temp_count = Some 1\<rparr>"
  by (simp add: running_service_def init_service_def ArgusMonitorAPI_init_def
      cache_sensor_info_def sample_region_simps is_active_def Let_def
      SENSOR_TYPE_CPU_TEMPERATURE_def SENSOR_TYPE_CPU_TEMPERATURE_ADDITIONAL_def)

lemma running_service_simps:
  "device running_service = Some (HidDevice True)"
  "packet running_service = 0 # 16 # replicate 63 0"
  "last_temp running_service = - 1"
  "next_mandatory_write_time running_service = 0"
  by (simp_all add: running_service_def init_service_def bytearray_def USB_PACKET_SIZE_def
      USB_PACKET_REPORT_ID_def USB_PACKET_COMMAND_def eval_nat_numeral ArgusMonitorAPI_init_def
      is_active_def Let_def)

lemma sample_tick_raw:
  "get_cpu_temp_raw \<lparr>cpu_temp_offset = Some 3, cpu_temp_count = Some 1\<rparr>
     (region (sample_tick t now wo)) = Inr (Some (Fl t))"
  by (simp add: get_cpu_temp_raw_def sample_tick_def sample_region_simps MAX_SENSOR_COUNT_def)

lemma float_round_samples:
  "float_round 40 = 40" "float_round 41 = 41" "float_round 42 = 42" "float_round (169 / 4) = 42"
  by code_simp+

lemma service_after_write_simps:
  "argus (service_after_write t now) = Some \<lparr>cpu_temp_offset = Some 3, cpu_temp_count = Some 1\<rparr>"
  "device (service_after_write t now) = Some (HidDevice True)"
  "packet (service_after_write t now) = 0 # 16 # clamp_temp (float_round t) # replicate 62 0"
  "last_temp (service_after_write t now) = clamp_temp (float_round t)"
  "next_mandatory_write_time (service_after_write t now) = now + 15"
proof -
  have d: "device running_service = Some (HidDevice True)"
    and l: "2 < length (packet running_service)"
    by (simp_all add: running_service_simps)
  show "argus (service_after_write t now) = Some \<lparr>cpu_temp_offset = Some 3, cpu_temp_count = Some 1\<rparr>"
    "device (service_after_write t now) = Some (HidDevice True)"
    "packet (service_after_write t now) = 0 # 16 # clamp_temp (float_round t) # replicate 62 0"
    "last_temp (service_after_write t now) = clamp_temp (float_round t)"
    "next_mandatory_write_time (service_after_write t now) = now + 15"
    by (simp_all add: service_after_write_def write_temp_finite [OF d l] Let_def
        running_service_simps running_service_argus MANDATORY_UPDATE_INTERVAL_def
        eval_nat_numeral)
qed

lemma update_tick_finite:
  assumes "argus s = Some api" and "get_cpu_temp_raw api (region env) = Inr (Some (Fl q))"
  shows "update_tick s env =
     Inr (snd (write_temp s (Fl q) (next_mandatory_write_time s \<le> clock env)
                 (write_result env) (clock_after_write env)))"
  using assms by (simp add: update_tick_def Let_def split: prod.splits)

lemma update_tick_explicit:
  assumes "argus s = Some api" and "device s = Some dev"
    and "length (packet s) = USB_PACKET_SIZE"
    and "get_cpu_temp_raw api (region env) = Inr (Some (Fl q))"
  shows "update_tick s env =
     (let v = clamp_temp (float_round q); pk = (packet s)[2 := v]
      in if \<not> next_mandatory_write_time s \<le> clock env \<and> v = last_temp s
         then Inr (s, NotCalled)
         else Inr ((if write_result env = WriteOk
                    then s\<lparr>last_temp := v, packet := pk,
                           next_mandatory_write_time :=
                             clock_after_write env + MANDATORY_UPDATE_INTERVAL\<rparr>
                    else s\<lparr>last_temp := v, packet := pk\<rparr>),
                   Called pk (write_result env)))"
proof -
  have len: "2 < length (packet s)" using assms(3) by (simp add: USB_PACKET_SIZE_def)
  show ?thesis
    by (simp add: update_tick_finite [OF assms(1) assms(4)]
        write_temp_finite [OF assms(2) len] Let_def)
qed







text \<open>Claim C4.  The code at a failing write: the display shows 40 (written at time
  100); the next call computes 41 and \<^verbatim>\<open>device.write\<close> raises \<^verbatim>\<open>IOError\<close>.
  \<^verbatim>\<open>write_temp\<close> returns \<^verbatim>\<open>False\<close> and the deadline is unchanged, but \<^verbatim>\<open>last_temp\<close> is
  already 41, because line 338 assigns it before the write of line 342; the following
  unforced call with 41 is therefore debounced although the display never received 41.\<close>

theorem write_temp_failed_write_keeps_new_last_temp:
  "\<exists>s2 pk2.
     last_temp (service_after_write 40 100) = 40
     \<and> write_temp (service_after_write 40 100) (Fl 41) False WriteIOError 101
         = (False, s2, Called pk2 WriteIOError)
     \<and> last_temp s2 = 41
     \<and> next_mandatory_write_time s2 = next_mandatory_write_time (service_after_write 40 100)
     \<and> write_temp s2 (Fl 41) False WriteOk 102 = (True, s2, NotCalled)"
proof -
  have d: "device (service_after_write 40 100) = Some (HidDevice True)"
    and l: "2 < length (packet (service_after_write 40 100))"
    by (simp_all add: service_after_write_simps)
  let ?s2 = "(service_after_write 40 100)\<lparr>last_temp := 41,
      packet := (packet (service_after_write 40 100))[2 := 41]\<rparr>"
  have c: "clamp_temp 40 = 40" "clamp_temp 41 = 41" by (simp_all add: clamp_temp_max_min)
  have w: "write_temp (service_after_write 40 100) (Fl 41) False WriteIOError 101
         = (False, ?s2, Called ((packet (service_after_write 40 100))[2 := 41]) WriteIOError)"
    by (simp add: write_temp_finite [OF d l] Let_def float_round_samples c service_after_write_simps)
  have d2: "device ?s2 = Some (HidDevice True)" and l2: "2 < length (packet ?s2)"
    using d l by simp_all
  have w2: "write_temp ?s2 (Fl 41) False WriteOk 102 = (True, ?s2, NotCalled)"
    by (simp add: write_temp_finite [OF d2 l2] Let_def float_round_samples c)
  have "last_temp (service_after_write 40 100) = 40"
    by (simp add: service_after_write_simps float_round_samples c)
  with w w2 show ?thesis by (intro exI [of _ ?s2] exI) auto
qed

section \<open>Reconnecting the display\<close>

text \<open>Claim C8 as stated fails: \<^verbatim>\<open>connect_display\<close> assigns only
  \<^verbatim>\<open>next_mandatory_write_time\<close>.  After a write of 42 and a successful reconnection
  \<^verbatim>\<open>last_temp\<close> is still 42, not the initial -1, and an unforced \<^verbatim>\<open>write_temp\<close> of 42 is
  debounced against the value written over the previous connection.\<close>

theorem connect_display_keeps_last_temp_counterexample:
  "fst (connect_display (service_after_write 42 100) HidOpenOk)
   \<and> last_temp (snd (connect_display (service_after_write 42 100) HidOpenOk)) = 42
   \<and> last_temp init_service = - 1
   \<and> write_temp (snd (connect_display (service_after_write 42 100) HidOpenOk)) (Fl 42) False
         WriteOk 200
       = (True, snd (connect_display (service_after_write 42 100) HidOpenOk), NotCalled)"
proof -
  let ?s = "snd (connect_display (service_after_write 42 100) HidOpenOk)"
  have c: "clamp_temp 42 = 42" by (simp add: clamp_temp_max_min)
  have d: "device ?s = Some (HidDevice True)" and l: "2 < length (packet ?s)"
    and t: "last_temp ?s = 42"
    by (simp_all add: service_after_write_simps float_round_samples c)
  have "write_temp ?s (Fl 42) False WriteOk 200 = (True, ?s, NotCalled)"
    by (simp only: write_temp_finite [OF d l] Let_def float_round_samples c t) simp
  then show ?thesis using t by (simp add: init_service_def)
qed

text \<open>Claim C8, amended.  A successful \<^verbatim>\<open>connect_display\<close> returns the deadline
  \<^verbatim>\<open>next_mandatory_write_time\<close> to its initial value 0.0 and leaves \<^verbatim>\<open>last_temp\<close> as it
  was; since the polling loop forces the write whenever the time is at or past the
  deadline, the first tick after the reconnection that reads a finite temperature (at a
  time that is not negative) calls \<^verbatim>\<open>device.write\<close>, whatever value was written
  before.\<close>

theorem connect_display_resets_deadline_only:
  "\<exists>s'. connect_display s HidOpenOk = (True, s')
     \<and> next_mandatory_write_time s' = next_mandatory_write_time init_service
     \<and> last_temp s' = last_temp s
     \<and> (\<forall>api env q.
          argus s = Some api \<and> length (packet s) = USB_PACKET_SIZE
          \<and> get_cpu_temp_raw api (region env) = Inr (Some (Fl q)) \<and> 0 \<le> clock env
          \<longrightarrow> (\<exists>s'' pk. update_tick s' env = Inr (s'', Called pk (write_result env))))"
proof -
  let ?s' = "s\<lparr>device := Some (HidDevice True), next_mandatory_write_time := 0\<rparr>"
  have c: "connect_display s HidOpenOk = (True, ?s')" by simp
  have n: "next_mandatory_write_time ?s' = next_mandatory_write_time init_service"
    by (simp add: init_service_def)
  have f: "\<exists>s'' pk. update_tick ?s' env = Inr (s'', Called pk (write_result env))"
    if "argus s = Some api" and "length (packet s) = USB_PACKET_SIZE"
      and "get_cpu_temp_raw api (region env) = Inr (Some (Fl q))" and "0 \<le> clock env"
    for api env q
  proof -
    have a: "argus ?s' = Some api" and d: "device ?s' = Some (HidDevice True)"
      and l: "length (packet ?s') = USB_PACKET_SIZE"
      using that(1,2) by simp_all
    show ?thesis
      using that(4) by (simp add: update_tick_explicit [OF a d l that(3)] Let_def)
  qed
  have k: "last_temp ?s' = last_temp s" by simp
  have "connect_display s HidOpenOk = (True, ?s')
     \<and> next_mandatory_write_time ?s' = next_mandatory_write_time init_service
     \<and> last_temp ?s' = last_temp s
     \<and> (\<forall>api env q.
          argus s = Some api \<and> length (packet s) = USB_PACKET_SIZE
          \<and> get_cpu_temp_raw api (region env) = Inr (Some (Fl q)) \<and> 0 \<le> clock env
          \<longrightarrow> (\<exists>s'' pk. update_tick ?s' env = Inr (s'', Called pk (write_result env))))"
    using c n k f by blast
  then show ?thesis by (rule exI)
qed

text \<open>The theorem on the service that wrote 42 at time 100, reconnected, with a tick
  reading 42 at time 200: the tick writes.\<close>

theorem connect_display_resets_deadline_only_witness:
  "argus (service_after_write 42 100) = Some \<lparr>cpu_temp_offset = Some 3, cpu_temp_count = Some 1\<rparr>
   \<and> length (packet (service_after_write 42 100)) = USB_PACKET_SIZE
   \<and> get_cpu_temp_raw \<lparr>cpu_temp_offset = Some 3, cpu_temp_count = Some 1\<rparr>
        (region (sample_tick 42 200 WriteOk)) = Inr (Some (Fl 42))
   \<and> 0 \<le> clock (sample_tick 42 200 WriteOk)
   \<and> (\<exists>s' s'' pk. connect_display (service_after_write 42 100) HidOpenOk = (True, s')
         \<and> next_mandatory_write_time s' = 0 \<and> last_temp s' = 42
         \<and> update_tick s' (sample_tick 42 200 WriteOk) = Inr (s'', Called pk WriteOk))"
proof -
  have c: "clamp_temp 42 = 42" by (simp add: clamp_temp_max_min)
  have a: "argus (service_after_write 42 100)
      = Some \<lparr>cpu_temp_offset = Some 3, cpu_temp_count = Some 1\<rparr>"
    by (rule service_after_write_simps)
  have l: "length (packet (service_after_write 42 100)) = USB_PACKET_SIZE"
    by (simp add: service_after_write_simps USB_PACKET_SIZE_def)
  have r: "get_cpu_temp_raw \<lparr>cpu_temp_offset = Some 3, cpu_temp_count = Some 1\<rparr>
        (region (sample_tick 42 200 WriteOk)) = Inr (Some (Fl 42))"
    by (rule sample_tick_raw)
  have k: "0 \<le> clock (sample_tick 42 200 WriteOk)"
    and w: "write_result (sample_tick 42 200 WriteOk) = WriteOk"
    by (simp_all add: sample_tick_def)
  have i: "next_mandatory_write_time init_service = 0" by (simp add: init_service_def)
  have t: "last_temp (service_after_write 42 100) = 42"
    by (simp add: service_after_write_simps float_round_samples c)
  obtain s' where s': "connect_display (service_after_write 42 100) HidOpenOk = (True, s')"
    "next_mandatory_write_time s' = next_mandatory_write_time init_service"
    "last_temp s' = last_temp (service_after_write 42 100)"
    and g: "\<forall>api env q.
          argus (service_after_write 42 100) = Some api
          \<and> length (packet (service_after_write 42 100)) = USB_PACKET_SIZE
          \<and> get_cpu_temp_raw api (region env) = Inr (Some (Fl q)) \<and> 0 \<le> clock env
          \<longrightarrow> (\<exists>s'' pk. update_tick s' env = Inr (s'', Called pk (write_result env)))"
    using connect_display_resets_deadline_only [of "service_after_write 42 100"] by blast
  from g a l r k obtain s'' pk where
    "update_tick s' (sample_tick 42 200 WriteOk)
       = Inr (s'', Called pk (write_result (sample_tick 42 200 WriteOk)))"
    by blast
  with s' a l r k show ?thesis unfolding w i t by blast
qed

section \<open>The temperature source\<close>

lemma signature_nonzero: "(0 :: 32 word) \<noteq> ARGUS_SIGNATURE"
  by (simp add: ARGUS_SIGNATURE_def)

lemma cache_sensor_info_sample:
  "cache_sensor_info \<lparr>cpu_temp_offset = None, cpu_temp_count = None\<rparr>
     (sample_region ARGUS_SIGNATURE 0 0 t) = \<lparr>cpu_temp_offset = Some 5, cpu_temp_count = Some 0\<rparr>"
  "cache_sensor_info \<lparr>cpu_temp_offset = None, cpu_temp_count = None\<rparr>
     (sample_region ARGUS_SIGNATURE 0 2 t) = \<lparr>cpu_temp_offset = Some 5, cpu_temp_count = Some 2\<rparr>"
  "cache_sensor_info \<lparr>cpu_temp_offset = None, cpu_temp_count = None\<rparr>
     (sample_region 0 1 0 t) = \<lparr>cpu_temp_offset = None, cpu_temp_count = None\<rparr>"
  by (simp_all add: cache_sensor_info_def sample_region_simps Let_def signature_nonzero
      SENSOR_TYPE_CPU_TEMPERATURE_def SENSOR_TYPE_CPU_TEMPERATURE_ADDITIONAL_def)

text \<open>What \<^verbatim>\<open>get_cpu_temp_raw\<close> does return: \<^verbatim>\<open>None\<close> whenever the signature of the
  region is not the magic constant, whatever the other fields and the cache hold, and
  whenever the cached count is zero; the value of the record at the cached offset when the
  signature is valid and the cache holds a count that is not zero and an offset inside the
  array of 512 records.\<close>

lemma get_cpu_temp_raw_gated:
  "(Signature data \<noteq> ARGUS_SIGNATURE \<longrightarrow> get_cpu_temp_raw api data = Inr None)
   \<and> (cpu_temp_count api = Some 0 \<longrightarrow> get_cpu_temp_raw api data = Inr None)
   \<and> (Signature data = ARGUS_SIGNATURE \<and> cpu_temp_count api = Some n \<and> n \<noteq> 0
       \<and> cpu_temp_offset api = Some off \<and> off < MAX_SENSOR_COUNT
       \<longrightarrow> get_cpu_temp_raw api data = Inr (Some (Value (SensorData data off))))"
  by (simp add: get_cpu_temp_raw_def)

text \<open>Claim C3.  The code where the cached location was never populated: the signature
  is still 0 when \<^verbatim>\<open>_cache_sensor_info\<close> reads the region, so both cached fields stay
  \<^verbatim>\<open>None\<close>, and it is valid when \<^verbatim>\<open>is_active\<close> reads it, so \<^verbatim>\<open>connect_argus\<close> returns
  \<^verbatim>\<open>True\<close>.  At the next read of a region with a valid signature the guard
  \<^verbatim>\<open>self.cpu_temp_count == 0\<close> of line 166 does not catch \<^verbatim>\<open>None\<close>, and
  \<^verbatim>\<open>sensors[None]\<close> at line 175 raises \<^verbatim>\<open>TypeError\<close>: \<^verbatim>\<open>get_cpu_temp_raw\<close> does not
  return \<^verbatim>\<open>None\<close>, and the exception leaves the polling loop.\<close>

theorem get_cpu_temp_raw_unpopulated_cache_raises:
  "connect_argus init_service
     (Opened (sample_region 0 1 0 42) (sample_region ARGUS_SIGNATURE 1 0 42))
     = (True, init_service\<lparr>argus := Some \<lparr>cpu_temp_offset = None, cpu_temp_count = None\<rparr>\<rparr>)
   \<and> Signature (sample_region ARGUS_SIGNATURE 1 0 42) = ARGUS_SIGNATURE
   \<and> get_cpu_temp_raw \<lparr>cpu_temp_offset = None, cpu_temp_count = None\<rparr>
        (sample_region ARGUS_SIGNATURE 1 0 42) = Inl TypeError
   \<and> update_tick
        (init_service\<lparr>argus := Some \<lparr>cpu_temp_offset = None, cpu_temp_count = None\<rparr>\<rparr>)
        (sample_tick 42 100 WriteOk) = Inl TypeError"
proof -
  have c: "connect_argus init_service
     (Opened (sample_region 0 1 0 42) (sample_region ARGUS_SIGNATURE 1 0 42))
     = (True, init_service\<lparr>argus := Some \<lparr>cpu_temp_offset = None, cpu_temp_count = None\<rparr>\<rparr>)"
    by (simp add: ArgusMonitorAPI_init_def cache_sensor_info_sample is_active_def
        sample_region_simps)
  have s: "Signature (sample_region ARGUS_SIGNATURE 1 0 42) = ARGUS_SIGNATURE"
    by (rule sample_region_simps)
  have g: "get_cpu_temp_raw \<lparr>cpu_temp_offset = None, cpu_temp_count = None\<rparr>
        (sample_region ARGUS_SIGNATURE 1 0 42) = Inl TypeError"
    by (simp add: get_cpu_temp_raw_def sample_region_simps)
  have u: "update_tick
        (init_service\<lparr>argus := Some \<lparr>cpu_temp_offset = None, cpu_temp_count = None\<rparr>\<rparr>)
        (sample_tick 42 100 WriteOk) = Inl TypeError"
    by (simp add: update_tick_def sample_tick_def g)
  show ?thesis using c s g u by blast
qed

text \<open>Claim C5.  When the region is active at connection time (at the read of
  \<^verbatim>\<open>_cache_sensor_info\<close> and at the read of \<^verbatim>\<open>is_active\<close>) and the count of the primary
  CPU-temperature category is zero, \<^verbatim>\<open>connect_argus\<close> succeeds and the source caches the
  offset and count of the additional category; if that count is zero too, every later
  \<^verbatim>\<open>get_cpu_temp_raw\<close>, on any contents of the region, returns \<^verbatim>\<open>None\<close> without
  raising, and every iteration of the polling loop leaves the service alone.\<close>

theorem connect_argus_caches_fallback:
  assumes "Signature cached = ARGUS_SIGNATURE" and "Signature checked = ARGUS_SIGNATURE"
    and "SensorCount cached SENSOR_TYPE_CPU_TEMPERATURE = 0"
  shows "\<exists>api. connect_argus s (Opened cached checked) = (True, s\<lparr>argus := Some api\<rparr>)
     \<and> cpu_temp_offset api
         = Some (unat (OffsetForSensorType cached SENSOR_TYPE_CPU_TEMPERATURE_ADDITIONAL))
     \<and> cpu_temp_count api
         = Some (unat (SensorCount cached SENSOR_TYPE_CPU_TEMPERATURE_ADDITIONAL))
     \<and> (SensorCount cached SENSOR_TYPE_CPU_TEMPERATURE_ADDITIONAL = 0 \<longrightarrow>
          (\<forall>data. get_cpu_temp_raw api data = Inr None)
          \<and> (\<forall>env. update_tick (s\<lparr>argus := Some api\<rparr>) env
                     = Inr (s\<lparr>argus := Some api\<rparr>, NotCalled)))"
proof -
  let ?api = "\<lparr>cpu_temp_offset =
        Some (unat (OffsetForSensorType cached SENSOR_TYPE_CPU_TEMPERATURE_ADDITIONAL)),
      cpu_temp_count = Some (unat (SensorCount cached SENSOR_TYPE_CPU_TEMPERATURE_ADDITIONAL))\<rparr>"
  have c: "connect_argus s (Opened cached checked) = (True, s\<lparr>argus := Some ?api\<rparr>)"
    using assms
    by (simp add: ArgusMonitorAPI_init_def cache_sensor_info_def is_active_def Let_def)
  have z: "get_cpu_temp_raw ?api data = Inr None"
    if "SensorCount cached SENSOR_TYPE_CPU_TEMPERATURE_ADDITIONAL = 0" for data
    using that by (simp add: get_cpu_temp_raw_def)
  have t: "update_tick (s\<lparr>argus := Some ?api\<rparr>) env = Inr (s\<lparr>argus := Some ?api\<rparr>, NotCalled)"
    if "SensorCount cached SENSOR_TYPE_CPU_TEMPERATURE_ADDITIONAL = 0" for env
    by (simp add: update_tick_def z [OF that])
  have "connect_argus s (Opened cached checked) = (True, s\<lparr>argus := Some ?api\<rparr>)
     \<and> cpu_temp_offset ?api
         = Some (unat (OffsetForSensorType cached SENSOR_TYPE_CPU_TEMPERATURE_ADDITIONAL))
     \<and> cpu_temp_count ?api
         = Some (unat (SensorCount cached SENSOR_TYPE_CPU_TEMPERATURE_ADDITIONAL))
     \<and> (SensorCount cached SENSOR_TYPE_CPU_TEMPERATURE_ADDITIONAL = 0 \<longrightarrow>
          (\<forall>data. get_cpu_temp_raw ?api data = Inr None)
          \<and> (\<forall>env. update_tick (s\<lparr>argus := Some ?api\<rparr>) env
                     = Inr (s\<lparr>argus := Some ?api\<rparr>, NotCalled)))"
    using c z t by simp
  then show ?thesis by (rule exI)
qed

text \<open>The theorem on a region with both categories empty.\<close>

theorem connect_argus_caches_fallback_witness:
  "Signature (sample_region ARGUS_SIGNATURE 0 0 42) = ARGUS_SIGNATURE
   \<and> SensorCount (sample_region ARGUS_SIGNATURE 0 0 42) SENSOR_TYPE_CPU_TEMPERATURE = 0
   \<and> SensorCount (sample_region ARGUS_SIGNATURE 0 0 42) SENSOR_TYPE_CPU_TEMPERATURE_ADDITIONAL = 0
   \<and> (\<exists>api. connect_argus init_service
               (Opened (sample_region ARGUS_SIGNATURE 0 0 42) (sample_region ARGUS_SIGNATURE 0 0 42))
             = (True, init_service\<lparr>argus := Some api\<rparr>)
         \<and> cpu_temp_offset api = Some 5 \<and> cpu_temp_count api = Some 0
         \<and> get_cpu_temp_raw api (sample_region ARGUS_SIGNATURE 1 1 42) = Inr None)"
proof -
  let ?d = "sample_region ARGUS_SIGNATURE 0 0 42"
  have s: "Signature ?d = ARGUS_SIGNATURE"
    and c6: "SensorCount ?d SENSOR_TYPE_CPU_TEMPERATURE = 0"
    and c7: "SensorCount ?d SENSOR_TYPE_CPU_TEMPERATURE_ADDITIONAL = 0"
    and o7: "unat (OffsetForSensorType ?d SENSOR_TYPE_CPU_TEMPERATURE_ADDITIONAL) = 5"
    by (simp_all add: sample_region_simps SENSOR_TYPE_CPU_TEMPERATURE_def
        SENSOR_TYPE_CPU_TEMPERATURE_ADDITIONAL_def)
  show ?thesis
    using connect_argus_caches_fallback [OF s s c6, of init_service] s c6 c7 o7
    by auto
qed



section \<open>Startup\<close>

lemma connect_argus_fst:
  "fst (connect_argus s a) = (case a of OpenFails \<Rightarrow> False | Opened c d \<Rightarrow> is_active d)"
  by (cases a) (simp_all add: ArgusMonitorAPI_init_def Let_def)

lemma connect_argus_fst_indep: "fst (connect_argus s a) = fst (connect_argus s' a)"
  by (simp add: connect_argus_fst)

lemma retry_loop_succeeds_at:
  assumes "N < 6" and "fst (connect_argus s0 (env N))"
  shows "k \<le> N \<Longrightarrow> (\<forall>j. k \<le> j \<and> j < N \<longrightarrow> \<not> fst (connect_argus s0 (env j))) \<Longrightarrow>
     \<exists>s'. retry_loop [k..<6] env s tr
       = (Broke, s', tr @ concat (replicate (N - k) [ConnectArgus, Sleep 10]) @ [ConnectArgus])"
proof (induction "N - k" arbitrary: k s tr)
  case 0
  then have k: "k = N" by simp
  have u: "[N..<6] = N # [Suc N..<6]" using assms(1) by (simp add: upt_rec)
  obtain s1 where c: "connect_argus s (env N) = (True, s1)"
    using assms(2) connect_argus_fst_indep [of s "env N" s0]
    by (cases "connect_argus s (env N)") auto
  show ?case unfolding k u by (simp add: c)
next
  case (Suc n)
  then have lt: "k < N" and n: "n = N - Suc k" by simp_all
  have k6: "k < 6" using lt assms(1) by simp
  have u: "[k..<6] = k # [Suc k..<6]" using k6 by (simp add: upt_rec)
  have "\<not> fst (connect_argus s0 (env k))" using Suc.prems(2) lt by simp
  then obtain s1 where c: "connect_argus s (env k) = (False, s1)"
    using connect_argus_fst_indep [of s "env k" s0]
    by (cases "connect_argus s (env k)") auto
  have more: "k < ARGUS_CONNECTION_MAX_RETRIES - 1"
    using lt assms(1) by (simp add: ARGUS_CONNECTION_MAX_RETRIES_def)
  have "\<exists>s'. retry_loop [Suc k..<6] env s1 (tr @ [ConnectArgus, Sleep 10])
       = (Broke, s', (tr @ [ConnectArgus, Sleep 10])
            @ concat (replicate (N - Suc k) [ConnectArgus, Sleep 10]) @ [ConnectArgus])"
    using Suc.hyps(1) [OF n, of s1 "tr @ [ConnectArgus, Sleep 10]"] Suc.prems(2) lt
    by simp
  moreover have "N - k = Suc (N - Suc k)" using lt by simp
  ultimately show ?case
    unfolding u using more by (simp add: c ARGUS_CONNECTION_RETRY_DELAY_def)
qed

lemma retry_loop_fails:
  "k < 6 \<Longrightarrow> (\<forall>j. k \<le> j \<and> j < 6 \<longrightarrow> \<not> fst (connect_argus s0 (env j))) \<Longrightarrow>
     \<exists>s'. retry_loop [k..<6] env s tr
       = (Returned False, s', tr @ concat (replicate (5 - k) [ConnectArgus, Sleep 10]) @ [ConnectArgus])"
proof (induction "5 - k" arbitrary: k s tr)
  case 0
  then have k: "k = 5" by simp
  have u: "[5..<6] = [5::nat]" by (simp add: upt_rec)
  obtain s1 where c: "connect_argus s (env 5) = (False, s1)"
    using "0.prems"(2) k connect_argus_fst_indep [of s "env 5" s0]
    by (cases "connect_argus s (env 5)") auto
  show ?case unfolding k u by (simp add: c ARGUS_CONNECTION_MAX_RETRIES_def)
next
  case (Suc n)
  then have lt: "k < 5" and n: "n = 5 - Suc k" by simp_all
  have u: "[k..<6] = k # [Suc k..<6]" using lt by (simp add: upt_rec)
  have "\<not> fst (connect_argus s0 (env k))" using Suc.prems(2) lt by simp
  then obtain s1 where c: "connect_argus s (env k) = (False, s1)"
    using connect_argus_fst_indep [of s "env k" s0]
    by (cases "connect_argus s (env k)") auto
  have more: "k < ARGUS_CONNECTION_MAX_RETRIES - 1"
    using lt by (simp add: ARGUS_CONNECTION_MAX_RETRIES_def)
  have "\<exists>s'. retry_loop [Suc k..<6] env s1 (tr @ [ConnectArgus, Sleep 10])
       = (Returned False, s', (tr @ [ConnectArgus, Sleep 10])
            @ concat (replicate (5 - Suc k) [ConnectArgus, Sleep 10]) @ [ConnectArgus])"
    using Suc.hyps(1) [OF n, of s1 "tr @ [ConnectArgus, Sleep 10]"] Suc.prems(2) lt
    by simp
  moreover have "5 - k = Suc (5 - Suc k)" using lt by simp
  ultimately show ?case
    unfolding u using more by (simp add: c ARGUS_CONNECTION_RETRY_DELAY_def)
qed

lemma start_after_break:
  assumes "retry_loop [0..<ARGUS_CONNECTION_MAX_RETRIES] env s [] = (Broke, s1, tr)"
  shows "snd (snd (start s env hid listed)) = tr @ [ConnectDisplay]
       \<or> snd (snd (start s env hid listed)) = tr @ [ConnectDisplay, StartThread]"
  by (simp add: start_def assms split: prod.splits bool.splits option.splits sum.splits)

text \<open>Claim C6.  Whether \<^verbatim>\<open>connect_argus\<close> succeeds depends only on what the attempt
  meets, not on the service.  If the attempts numbered 0 to \<open>N - 1\<close> fail, with \<open>N\<close> below
  6, and attempt \<open>N\<close> succeeds, \<^verbatim>\<open>start\<close> makes exactly \<open>N + 1\<close> attempts, sleeps 10
  seconds after each failed one and then goes on to connect the display.  If all 6
  attempts fail, \<^verbatim>\<open>start\<close> returns \<^verbatim>\<open>False\<close> after 6 attempts separated by 5 sleeps of
  10 seconds and never connects the display.\<close>

theorem start_retry_policy:
  "(N < ARGUS_CONNECTION_MAX_RETRIES
      \<and> (\<forall>k<N. \<not> fst (connect_argus s (env k))) \<and> fst (connect_argus s (env N))
    \<longrightarrow> (\<exists>rest. snd (snd (start s env hid listed))
            = concat (replicate N [ConnectArgus, Sleep ARGUS_CONNECTION_RETRY_DELAY])
              @ [ConnectArgus, ConnectDisplay] @ rest
          \<and> (rest = [] \<or> rest = [StartThread])))
   \<and> ((\<forall>k<ARGUS_CONNECTION_MAX_RETRIES. \<not> fst (connect_argus s (env k)))
    \<longrightarrow> fst (start s env hid listed) = Inr False
        \<and> snd (snd (start s env hid listed))
            = concat (replicate (ARGUS_CONNECTION_MAX_RETRIES - 1)
                        [ConnectArgus, Sleep ARGUS_CONNECTION_RETRY_DELAY])
              @ [ConnectArgus])"
proof (rule conjI; rule impI)
  assume a: "N < ARGUS_CONNECTION_MAX_RETRIES
      \<and> (\<forall>k<N. \<not> fst (connect_argus s (env k))) \<and> fst (connect_argus s (env N))"
  then have n6: "N < 6" by (simp add: ARGUS_CONNECTION_MAX_RETRIES_def)
  from a have ok: "fst (connect_argus s (env N))"
    and no: "\<forall>j. 0 \<le> j \<and> j < N \<longrightarrow> \<not> fst (connect_argus s (env j))" by simp_all
  obtain s1 where r: "retry_loop [0..<ARGUS_CONNECTION_MAX_RETRIES] env s []
      = (Broke, s1, concat (replicate N [ConnectArgus, Sleep 10]) @ [ConnectArgus])"
    using retry_loop_succeeds_at [OF n6 ok _ no, where s = s and tr = "[]"]
    by (auto simp: ARGUS_CONNECTION_MAX_RETRIES_def)
  show "\<exists>rest. snd (snd (start s env hid listed))
            = concat (replicate N [ConnectArgus, Sleep ARGUS_CONNECTION_RETRY_DELAY])
              @ [ConnectArgus, ConnectDisplay] @ rest
          \<and> (rest = [] \<or> rest = [StartThread])"
    using start_after_break [OF r, where hid = hid and listed = listed]
    by (auto simp: ARGUS_CONNECTION_RETRY_DELAY_def)
next
  assume "\<forall>k<ARGUS_CONNECTION_MAX_RETRIES. \<not> fst (connect_argus s (env k))"
  then have no: "\<forall>j. 0 \<le> j \<and> j < 6 \<longrightarrow> \<not> fst (connect_argus s (env j))"
    by (simp add: ARGUS_CONNECTION_MAX_RETRIES_def)
  obtain s1 where r: "retry_loop [0..<6] env s []
      = (Returned False, s1, concat (replicate 5 [ConnectArgus, Sleep 10]) @ [ConnectArgus])"
    using retry_loop_fails [OF _ no, where s = s and tr = "[]"]
    by auto
  show "fst (start s env hid listed) = Inr False
        \<and> snd (snd (start s env hid listed))
            = concat (replicate (ARGUS_CONNECTION_MAX_RETRIES - 1)
                        [ConnectArgus, Sleep ARGUS_CONNECTION_RETRY_DELAY])
              @ [ConnectArgus]"
    by (simp add: start_def r ARGUS_CONNECTION_MAX_RETRIES_def ARGUS_CONNECTION_RETRY_DELAY_def)
qed

text \<open>The theorem with two failures followed by a success, and with a source that
  never opens.\<close>

theorem start_retry_policy_witness:
  "(2 :: nat) < ARGUS_CONNECTION_MAX_RETRIES
   \<and> \<not> fst (connect_argus init_service
          (if (0 :: nat) < 2 then OpenFails
           else Opened (sample_region ARGUS_SIGNATURE 1 0 42) (sample_region ARGUS_SIGNATURE 1 0 42)))
   \<and> \<not> fst (connect_argus init_service
          (if (1 :: nat) < 2 then OpenFails
           else Opened (sample_region ARGUS_SIGNATURE 1 0 42) (sample_region ARGUS_SIGNATURE 1 0 42)))
   \<and> fst (connect_argus init_service
          (if (2 :: nat) < 2 then OpenFails
           else Opened (sample_region ARGUS_SIGNATURE 1 0 42) (sample_region ARGUS_SIGNATURE 1 0 42)))
   \<and> (\<exists>rest. snd (snd (start init_service
          (\<lambda>k. if k < 2 then OpenFails
               else Opened (sample_region ARGUS_SIGNATURE 1 0 42) (sample_region ARGUS_SIGNATURE 1 0 42))
          HidOpenOk (sample_region ARGUS_SIGNATURE 1 0 42)))
        = [ConnectArgus, Sleep 10, ConnectArgus, Sleep 10, ConnectArgus, ConnectDisplay] @ rest)
   \<and> \<not> fst (connect_argus init_service OpenFails)
   \<and> fst (start init_service (\<lambda>k. OpenFails) HidOpenOk (sample_region ARGUS_SIGNATURE 1 0 42))
       = Inr False
   \<and> snd (snd (start init_service (\<lambda>k. OpenFails) HidOpenOk (sample_region ARGUS_SIGNATURE 1 0 42)))
       = [ConnectArgus, Sleep 10, ConnectArgus, Sleep 10, ConnectArgus, Sleep 10,
          ConnectArgus, Sleep 10, ConnectArgus, Sleep 10, ConnectArgus]"
proof -
  let ?r = "sample_region ARGUS_SIGNATURE 1 0 42"
  let ?env = "\<lambda>k :: nat. if k < 2 then OpenFails else Opened ?r ?r"
  have n: "(2 :: nat) < ARGUS_CONNECTION_MAX_RETRIES"
    by (simp add: ARGUS_CONNECTION_MAX_RETRIES_def)
  have f: "\<forall>k<2. \<not> fst (connect_argus init_service (?env k))"
    by (simp add: connect_argus_fst)
  have g: "fst (connect_argus init_service (?env 2))"
    by (simp add: ArgusMonitorAPI_init_def Let_def is_active_def sample_region_simps)
  have h: "\<forall>k<ARGUS_CONNECTION_MAX_RETRIES. \<not> fst (connect_argus init_service ((\<lambda>k. OpenFails) k))"
    by (simp add: connect_argus_fst)
  have c: "concat (replicate 2 [ConnectArgus, Sleep ARGUS_CONNECTION_RETRY_DELAY])
        = [ConnectArgus, Sleep 10, ConnectArgus, Sleep 10]"
    "concat (replicate (ARGUS_CONNECTION_MAX_RETRIES - 1)
        [ConnectArgus, Sleep ARGUS_CONNECTION_RETRY_DELAY])
        = [ConnectArgus, Sleep 10, ConnectArgus, Sleep 10, ConnectArgus, Sleep 10,
           ConnectArgus, Sleep 10, ConnectArgus, Sleep 10]"
    by (simp_all add: ARGUS_CONNECTION_RETRY_DELAY_def ARGUS_CONNECTION_MAX_RETRIES_def
        eval_nat_numeral)
  from start_retry_policy [of 2 init_service ?env HidOpenOk ?r] n f g
  have 1: "\<exists>rest. snd (snd (start init_service ?env HidOpenOk ?r))
        = [ConnectArgus, Sleep 10, ConnectArgus, Sleep 10, ConnectArgus, ConnectDisplay] @ rest"
    unfolding c by auto
  from start_retry_policy [of 2 init_service "\<lambda>k. OpenFails" HidOpenOk ?r] h
  have 2: "fst (start init_service (\<lambda>k. OpenFails) HidOpenOk ?r) = Inr False
     \<and> snd (snd (start init_service (\<lambda>k. OpenFails) HidOpenOk ?r))
       = [ConnectArgus, Sleep 10, ConnectArgus, Sleep 10, ConnectArgus, Sleep 10,
          ConnectArgus, Sleep 10, ConnectArgus, Sleep 10, ConnectArgus]"
    unfolding c by simp
  have f0: "\<not> fst (connect_argus init_service (?env 0))"
    and f1: "\<not> fst (connect_argus init_service (?env 1))"
    and h0: "\<not> fst (connect_argus init_service OpenFails)"
    by (simp_all add: connect_argus_fst)
  show ?thesis using n f0 f1 g h0 1 2 by simp
qed

section \<open>The output report\<close>

lemma report_shape_init: "report_shape (packet init_service)"
  by (simp add: report_shape_def init_service_def bytearray_def USB_PACKET_SIZE_def
      USB_PACKET_REPORT_ID_def USB_PACKET_COMMAND_def eval_nat_numeral)

lemma report_shape_update:
  "report_shape pk \<Longrightarrow> 0 \<le> v \<Longrightarrow> v \<le> 99 \<Longrightarrow> report_shape (pk[2 := v])"
  by (simp add: report_shape_def)

lemma write_temp_shape:
  assumes "report_shape (packet s)" and "write_temp s raw_temp force wo now = (ok, s', call)"
  shows "report_shape (packet s')
     \<and> (\<forall>pk w. call = Called pk w \<longrightarrow>
          report_shape pk \<and> (\<exists>r. py_round raw_temp = Inr r \<and> pk ! 2 = clamp_temp r))"
proof (cases "device s")
  case None
  then show ?thesis using assms by (simp add: write_temp_def)
next
  case (Some dev)
  show ?thesis
  proof (cases "py_round raw_temp")
    case (Inl e)
    then show ?thesis using assms Some by (simp add: write_temp_def)
  next
    case (Inr r)
    have len: "2 < length (packet s)" using assms(1) by (simp add: report_shape_def)
    have rng: "0 \<le> clamp_temp r" "clamp_temp r \<le> 99" "clamp_temp r < 256"
      using clamp_temp_range [of r] by auto
    have shp: "report_shape ((packet s)[2 := clamp_temp r])"
      using assms(1) rng by (simp add: report_shape_update)
    have nth: "(packet s)[2 := clamp_temp r] ! 2 = clamp_temp r" using len by simp
    show ?thesis
      using assms Some Inr len rng shp nth
      by (cases wo)
        (auto simp: write_temp_def Let_def bytearray_setitem_def split: if_splits)
  qed
qed

lemma update_tick_shape:
  assumes "report_shape (packet s)" and "update_tick s env = Inr (s', call)"
  shows "report_shape (packet s') \<and> (\<forall>pk w. call = Called pk w \<longrightarrow> report_shape pk)"
proof (cases "argus s")
  case None
  then show ?thesis using assms by (simp add: update_tick_def)
next
  case (Some api)
  show ?thesis
  proof (cases "get_cpu_temp_raw api (region env)")
    case (Inl e)
    then show ?thesis using assms Some by (simp add: update_tick_def)
  next
    case (Inr v)
    show ?thesis
    proof (cases v)
      case None
      then show ?thesis using assms Some Inr by (auto simp: update_tick_def)
    next
      case (Some raw)
      obtain ok where w: "write_temp s raw (next_mandatory_write_time s \<le> clock env)
          (write_result env) (clock_after_write env) = (ok, s', call)"
        using assms(2) \<open>argus s = Some api\<close> Inr Some
        by (cases "write_temp s raw (next_mandatory_write_time s \<le> clock env)
              (write_result env) (clock_after_write env)")
          (simp add: update_tick_def Let_def)
      show ?thesis using write_temp_shape [OF assms(1) w] by blast
    qed
  qed
qed

lemma apply_op_shape:
  assumes "report_shape (packet s)" and "apply_op s op = (s', call)"
  shows "report_shape (packet s') \<and> (\<forall>pk w. call = Called pk w \<longrightarrow> report_shape pk)"
proof (cases op)
  case (OpConnectArgus a)
  then show ?thesis using assms
    by (cases a) (auto simp: ArgusMonitorAPI_init_def Let_def split: if_splits)
next
  case (OpConnectDisplay h)
  then show ?thesis using assms by (cases h) auto
next
  case (OpWriteTemp raw force wo now)
  then obtain ok where "write_temp s raw force wo now = (ok, s', call)"
    using assms(2) by (cases "write_temp s raw force wo now") simp
  then show ?thesis using write_temp_shape [OF assms(1)] by blast
next
  case (OpTick env)
  show ?thesis
  proof (cases "update_tick s env")
    case (Inl e)
    then show ?thesis using assms OpTick by auto
  next
    case (Inr r)
    then have "update_tick s env = Inr (s', call)" using assms(2) OpTick by simp
    then show ?thesis using update_tick_shape [OF assms(1)] by blast
  qed
qed

lemma run_service_shape:
  "report_shape (packet s) \<Longrightarrow> Called pk w \<in> set (run_service s ops) \<Longrightarrow> report_shape pk"
proof (induction ops arbitrary: s)
  case Nil
  then show ?case by simp
next
  case (Cons op ops)
  obtain s' call where a: "apply_op s op = (s', call)" by (cases "apply_op s op")
  from apply_op_shape [OF Cons.prems(1) a]
  have s': "report_shape (packet s')" and c: "\<forall>pk w. call = Called pk w \<longrightarrow> report_shape pk"
    by simp_all
  from Cons.prems(2) a have "call = Called pk w \<or> Called pk w \<in> set (run_service s' ops)"
    by auto
  then show ?case using c Cons.IH [OF s'] by blast
qed

lemma service_after_shape:
  "report_shape (packet s) \<Longrightarrow> report_shape (packet (service_after s ops))"
proof (induction ops arbitrary: s)
  case Nil
  then show ?case by simp
next
  case (Cons op ops)
  obtain s' call where a: "apply_op s op = (s', call)" by (cases "apply_op s op")
  from apply_op_shape [OF Cons.prems a] have "report_shape (packet s')" by simp
  from Cons.IH [OF this] show ?case by (simp add: a)
qed

text \<open>Claim C7.  Over the life of a service (\<^verbatim>\<open>__init__\<close> followed by any sequence of
  connections, calls of \<^verbatim>\<open>write_temp\<close> and iterations of the polling loop, whatever the
  environment answers), every packet handed to \<^verbatim>\<open>device.write\<close> is 65 bytes long, with
  byte 0 equal to 0x00, byte 1 equal to 0x10, byte 2 between 0 and 99 and every other byte
  zero; and byte 2 of the packet that a call of \<^verbatim>\<open>write_temp\<close> hands over is the clamp
  of the rounded raw temperature of that call.\<close>

theorem every_packet_written_has_report_shape:
  "(\<forall>pk w. Called pk w \<in> set (run_service init_service ops) \<longrightarrow>
      length pk = 65 \<and> pk ! 0 = 0x00 \<and> pk ! 1 = 0x10 \<and> 0 \<le> pk ! 2 \<and> pk ! 2 \<le> 99
      \<and> (\<forall>i. 3 \<le> i \<and> i < 65 \<longrightarrow> pk ! i = 0))
   \<and> (\<forall>raw_temp force wo now ok s' pk w.
        write_temp (service_after init_service ops) raw_temp force wo now = (ok, s', Called pk w)
        \<longrightarrow> report_shape pk \<and> (\<exists>r. py_round raw_temp = Inr r \<and> pk ! 2 = clamp_temp r))"
proof (rule conjI)
  show "\<forall>pk w. Called pk w \<in> set (run_service init_service ops) \<longrightarrow>
      length pk = 65 \<and> pk ! 0 = 0x00 \<and> pk ! 1 = 0x10 \<and> 0 \<le> pk ! 2 \<and> pk ! 2 \<le> 99
      \<and> (\<forall>i. 3 \<le> i \<and> i < 65 \<longrightarrow> pk ! i = 0)"
  proof (intro allI impI)
    fix pk w
    assume "Called pk w \<in> set (run_service init_service ops)"
    then have r: "report_shape pk" by (rule run_service_shape [OF report_shape_init])
    have "pk ! i = 0" if "3 \<le> i" and "i < 65" for i
    proof -
      have d: "drop 3 pk = replicate 62 0" and l: "length pk = 65"
        using r by (simp_all add: report_shape_def)
      have "drop 3 pk ! (i - 3) = pk ! (3 + (i - 3))" using l by (simp only: nth_drop)
      moreover have "3 + (i - 3) = i" using that by simp
      moreover have "replicate 62 (0::int) ! (i - 3) = 0" using that by simp
      ultimately show ?thesis using d by simp
    qed
    then show "length pk = 65 \<and> pk ! 0 = 0x00 \<and> pk ! 1 = 0x10 \<and> 0 \<le> pk ! 2 \<and> pk ! 2 \<le> 99
      \<and> (\<forall>i. 3 \<le> i \<and> i < 65 \<longrightarrow> pk ! i = 0)"
      using r by (simp add: report_shape_def)
  qed
next
  show "\<forall>raw_temp force wo now ok s' pk w.
        write_temp (service_after init_service ops) raw_temp force wo now = (ok, s', Called pk w)
        \<longrightarrow> report_shape pk \<and> (\<exists>r. py_round raw_temp = Inr r \<and> pk ! 2 = clamp_temp r)"
    using write_temp_shape [OF service_after_shape [OF report_shape_init]] by blast
qed

text \<open>The theorem on a service that connects the display and writes 150: the packet
  is 0, 16, 99 and 62 zeros.\<close>

theorem every_packet_written_has_report_shape_witness:
  "Called (0 # 16 # 99 # replicate 62 0) WriteOk
     \<in> set (run_service init_service
              [OpConnectDisplay HidOpenOk, OpWriteTemp (Fl 150) False WriteOk 100])
   \<and> length (0 # 16 # 99 # replicate 62 (0 :: int)) = 65
   \<and> (0 # 16 # 99 # replicate 62 (0 :: int)) ! 3 = 0
   \<and> (0 # 16 # 99 # replicate 62 (0 :: int)) ! 64 = 0
   \<and> (\<exists>s'. write_temp (service_after init_service [OpConnectDisplay HidOpenOk]) (Fl 150)
               False WriteOk 100
             = (True, s', Called (0 # 16 # 99 # replicate 62 0) WriteOk))
   \<and> report_shape (0 # 16 # 99 # replicate 62 0)
   \<and> py_round (Fl 150) = Inr 150 \<and> clamp_temp 150 = 99"
proof -
  let ?pk = "0 # 16 # 99 # replicate 62 (0 :: int)"
  have d: "device connected_service = Some (HidDevice True)"
    and l: "2 < length (packet connected_service)"
    by (simp_all add: connected_service_simps)
  have r: "float_round 150 = 150" by code_simp
  have c: "clamp_temp 150 = 99" by (simp add: clamp_temp_max_min)
  have u: "(packet connected_service)[2 := 99] = ?pk"
    by (simp add: connected_service_simps eval_nat_numeral)
  have w: "write_temp connected_service (Fl 150) False WriteOk 100
      = (True, connected_service\<lparr>last_temp := 99, packet := ?pk,
            next_mandatory_write_time := 100 + MANDATORY_UPDATE_INTERVAL\<rparr>,
         Called ?pk WriteOk)"
    unfolding write_temp_finite [OF d l] Let_def r c u
    by (simp add: connected_service_simps(3))
  have a: "service_after init_service [OpConnectDisplay HidOpenOk] = connected_service"
    by (simp add: connected_service_def)
  have m: "Called ?pk WriteOk
     \<in> set (run_service init_service
              [OpConnectDisplay HidOpenOk, OpWriteTemp (Fl 150) False WriteOk 100])"
    using w by (simp add: connected_service_def)
  have w': "write_temp (service_after init_service [OpConnectDisplay HidOpenOk]) (Fl 150)
               False WriteOk 100
      = (True, connected_service\<lparr>last_temp := 99, packet := ?pk,
            next_mandatory_write_time := 100 + MANDATORY_UPDATE_INTERVAL\<rparr>,
         Called ?pk WriteOk)"
    using w a by simp
  from every_packet_written_has_report_shape
    [of "[OpConnectDisplay HidOpenOk, OpWriteTemp (Fl 150) False WriteOk 100]"] m
  have 1: "length ?pk = 65 \<and> (\<forall>i. 3 \<le> i \<and> i < 65 \<longrightarrow> ?pk ! i = 0)"
    by blast
  from every_packet_written_has_report_shape [of "[OpConnectDisplay HidOpenOk]"] w'
  have 2: "report_shape ?pk" by blast
  from 1 have 3: "?pk ! 3 = 0" "?pk ! 64 = 0" by simp_all
  from 1 have 4: "length ?pk = 65" by simp
  from w' have 5: "\<exists>s'. write_temp (service_after init_service [OpConnectDisplay HidOpenOk])
        (Fl 150) False WriteOk 100 = (True, s', Called ?pk WriteOk)"
    by blast
  have 6: "py_round (Fl 150) = Inr 150" by (simp add: r)
  show ?thesis using m 3 4 5 2 6 c by blast
qed

end
